theory Spec2Isabelle
  imports Main
begin

section \<open>Python values, exceptions and text\<close>

text \<open>
  Both programs are Python scripts that drive external collaborators (a Snowflake
  session, a Polaris catalog client, a Spark session). A call of a collaborator either
  returns or raises; every raise of the source is a value \<open>Inl e\<close> of a sum type.
  All exceptions modelled here are instances of Python's \<open>Exception\<close>, which is
  what the source's \<open>except Exception\<close> clauses catch. \<open>str_exn\<close> is \<open>str(e)\<close>.
\<close>

datatype exn =
    RuntimeError string
  | ValueError string
  | IndexError string
  | AttributeError string
  | ExternalError string

fun str_exn :: "exn \<Rightarrow> string" where
  "str_exn (RuntimeError m) = m"
| "str_exn (ValueError m) = m"
| "str_exn (IndexError m) = m"
| "str_exn (AttributeError m) = m"
| "str_exn (ExternalError m) = m"

text \<open>
  The cells of a result row. A timestamp is the number of microseconds since the epoch
  (the resolution of Python's \<open>datetime\<close>).
\<close>

datatype py_value = PyStr string | PyInt int | PyDatetime int | PyNone

type_synonym row = "py_value list"

text \<open>Characters that cannot stand in a string literal of the theory.\<close>

definition dquote :: char where
  "dquote = CHR 0x22"

definition squote :: char where
  "squote = CHR 0x27"

definition newline :: char where
  "newline = CHR 0x0A"

definition backtick :: char where
  "backtick = CHR 0x60"

text \<open>Decimal text of an integer, as an f-string formats an \<open>int\<close>.\<close>

fun str_nat :: "nat \<Rightarrow> string" where
  "str_nat n =
     (if n < 10 then [''0123456789'' ! n]
      else str_nat (n div 10) @ [''0123456789'' ! (n mod 10)])"

declare str_nat.simps [simp del]

definition str_int :: "int \<Rightarrow> string" where
  "str_int i = (if i < 0 then CHR ''-'' # str_nat (nat (- i)) else str_nat (nat i))"

text \<open>
  \<open>str(v)\<close> for a cell. The text of a timestamp depends on the calendar; it is taken
  as a parameter.
\<close>

fun py_str :: "(int \<Rightarrow> string) \<Rightarrow> py_value \<Rightarrow> string" where
  "py_str str_datetime (PyStr s) = s"
| "py_str str_datetime (PyInt i) = str_int i"
| "py_str str_datetime (PyDatetime t) = str_datetime t"
| "py_str str_datetime PyNone = ''None''"

text \<open>\<open>row[i]\<close> for a non-negative literal index: IndexError when out of range.\<close>

definition py_index :: "'a list \<Rightarrow> nat \<Rightarrow> exn + 'a" where
  "py_index xs i =
     (if i < length xs then Inr (xs ! i) else Inl (IndexError ''tuple index out of range''))"

section \<open>The table maintenance app (MDLH\_table\_refresh\_repair.py)\<close>

subsection \<open>Identifier quoting and the SQL texts\<close>

text \<open>
  The expression \<^verbatim>\<open>f'"{x}"' if not x.startswith('"') else x\<close>, which the source
  repeats for the database, the schema and the table name.
\<close>

definition startswith_dquote :: "string \<Rightarrow> bool" where
  "startswith_dquote x = (case x of [] \<Rightarrow> False | c # _ \<Rightarrow> c = dquote)"

definition quoted :: "string \<Rightarrow> string" where
  "quoted x = (if \<not> startswith_dquote x then [dquote] @ x @ [dquote] else x)"

text \<open>\<^verbatim>\<open>schema.replace("'", "''")\<close>\<close>

definition schema_escaped :: "string \<Rightarrow> string" where
  "schema_escaped schema = concat (map (\<lambda>c. if c = squote then [squote, squote] else [c]) schema)"

text \<open>The query of \<open>list_schemas\<close> (a triple-quoted f-string, with its line breaks).\<close>

definition schemata_query :: "string \<Rightarrow> string" where
  "schemata_query database =
     [newline] @ ''        SELECT DISTINCT SCHEMA_NAME '' @
     [newline] @ ''        FROM '' @ quoted database @ ''.INFORMATION_SCHEMA.SCHEMATA'' @
     [newline] @ ''        ORDER BY SCHEMA_NAME'' @
     [newline] @ ''        ''"

text \<open>The query of \<open>find_stale_tables\<close>.\<close>

definition stale_query :: "string \<Rightarrow> string \<Rightarrow> int \<Rightarrow> string" where
  "stale_query database schema days_threshold =
     [newline] @ ''        SELECT'' @
     [newline] @ ''            TABLE_NAME,'' @
     [newline] @ ''            LAST_ALTERED,'' @
     [newline] @ ''            ROW_COUNT'' @
     [newline] @ ''        FROM '' @ quoted database @ ''.INFORMATION_SCHEMA.TABLES'' @
     [newline] @ ''        WHERE TABLE_SCHEMA = '' @ [squote] @ schema_escaped schema @ [squote] @
     [newline] @ ''          AND ROW_COUNT > 0'' @
     [newline] @ ''          AND LAST_ALTERED < DATEADD(day, -'' @ str_int days_threshold @
                 '', CURRENT_TIMESTAMP())'' @
     [newline] @ ''        ORDER BY LAST_ALTERED DESC'' @
     [newline] @ ''        ''"

text \<open>The two statements of \<open>repair_table\<close>.\<close>

definition refresh_query :: "string \<Rightarrow> string \<Rightarrow> string \<Rightarrow> string" where
  "refresh_query database schema table_name =
     ''ALTER ICEBERG TABLE '' @ quoted database @ ''.'' @ quoted schema @ ''.'' @
     quoted table_name @ '' REFRESH''"

definition auto_refresh_query :: "string \<Rightarrow> string \<Rightarrow> string \<Rightarrow> string" where
  "auto_refresh_query database schema table_name =
     ''ALTER ICEBERG TABLE '' @ quoted database @ ''.'' @ quoted schema @ ''.'' @
     quoted table_name @ '' SET AUTO_REFRESH = TRUE''"

subsection \<open>The session, the page and the query executor\<close>

text \<open>
  \<open>conn.sql(query).collect()\<close>: the Snowflake session is an external collaborator.
  It is a transition function on the session's own state \<open>'c\<close>: given a statement it
  raises or returns rows, and moves to a new state, so the answer to a statement may
  depend on everything sent before.
\<close>

type_synonym 'c conn = "'c \<Rightarrow> string \<Rightarrow> (exn + row list) \<times> 'c"

text \<open>
  What the page shows, one constructor per call site of the source. An error message
  carries the text of the exception it reports; \<open>StatusText i n t\<close> is the text
  "Processing i/n: t..." and \<open>ProgressBar i n\<close> the fraction \<open>i / n\<close>.
\<close>

datatype ui_event =
    QueryExecutionError string
  | ErrorListingSchemas string
  | ErrorFindingStaleTables string
  | ProgressCreated
  | StatusCreated
  | StatusText nat nat string
  | ProgressBar nat nat
  | ProgressEmpty
  | StatusEmpty
  | WarningSelectTable

text \<open>One entry of \<open>repair_results\<close> (a dict with these three keys).\<close>

record repair_outcome =
  r_table_name :: string
  success :: bool
  message :: string

text \<open>
  The state the app runs in: the session's state, the statements handed to
  \<open>conn.sql\<close> so far (oldest first), what was written to the page, and
  \<open>st.session_state.repair_results\<close>.
\<close>

record 'c app =
  session :: 'c
  sent :: "string list"
  ui :: "ui_event list"
  repair_results :: "repair_outcome list"

text \<open>
  \<open>execute_query\<close>: both branches of the \<open>hasattr\<close> test run the same two calls;
  on an exception the error is shown and raised again.
\<close>

definition execute_query :: "'c conn \<Rightarrow> string \<Rightarrow> 'c app \<Rightarrow> (exn + row list) \<times> 'c app" where
  "execute_query conn query a =
     (case conn (session a) query of
        (Inr result, c) \<Rightarrow> (Inr result, a\<lparr>session := c, sent := sent a @ [query]\<rparr>)
      | (Inl e, c) \<Rightarrow>
          (Inl e, a\<lparr>session := c, sent := sent a @ [query],
                     ui := ui a @ [QueryExecutionError (str_exn e)]\<rparr>))"

subsection \<open>list\_schemas\<close>

text \<open>The loop \<open>for row in results: schemas.append(str(row[0]))\<close>.\<close>

fun schema_names :: "(int \<Rightarrow> string) \<Rightarrow> row list \<Rightarrow> exn + string list" where
  "schema_names str_datetime [] = Inr []"
| "schema_names str_datetime (row # results) =
     (case py_index row 0 of
        Inl e \<Rightarrow> Inl e
      | Inr v \<Rightarrow>
          (case schema_names str_datetime results of
             Inl e \<Rightarrow> Inl e
           | Inr schemas \<Rightarrow> Inr (py_str str_datetime v # schemas)))"

text \<open>The body of the \<open>try\<close> block, then the function with its \<open>except\<close> clause.\<close>

definition list_schemas_try ::
  "(int \<Rightarrow> string) \<Rightarrow> 'c conn \<Rightarrow> string \<Rightarrow> 'c app \<Rightarrow> (exn + string list) \<times> 'c app" where
  "list_schemas_try str_datetime conn database a =
     (case execute_query conn (schemata_query database) a of
        (Inl e, a1) \<Rightarrow> (Inl e, a1)
      | (Inr results, a1) \<Rightarrow> (schema_names str_datetime results, a1))"

definition list_schemas ::
  "(int \<Rightarrow> string) \<Rightarrow> 'c conn \<Rightarrow> string \<Rightarrow> 'c app \<Rightarrow> (exn + string list) \<times> 'c app" where
  "list_schemas str_datetime conn database a =
     (case list_schemas_try str_datetime conn database a of
        (Inr schemas, a1) \<Rightarrow> (Inr schemas, a1)
      | (Inl e, a1) \<Rightarrow> (Inr [], a1\<lparr>ui := ui a1 @ [ErrorListingSchemas (str_exn e)]\<rparr>))"

subsection \<open>find\_stale\_tables\<close>

text \<open>One entry of the result (a dict with these five keys).\<close>

record stale_table =
  table_name :: py_value
  last_altered :: py_value
  row_count :: py_value
  database :: string
  schema :: string

text \<open>
  The dict built for one row. \<open>row[0]\<close> and \<open>row[1]\<close> raise IndexError on a
  shorter row; only the third column is guarded by \<open>len(row) > 2\<close>.
\<close>

definition stale_record :: "string \<Rightarrow> string \<Rightarrow> row \<Rightarrow> exn + stale_table" where
  "stale_record db sch row =
     (case py_index row 0 of
        Inl e \<Rightarrow> Inl e
      | Inr v0 \<Rightarrow>
          (case py_index row 1 of
             Inl e \<Rightarrow> Inl e
           | Inr v1 \<Rightarrow>
               Inr \<lparr>table_name = v0, last_altered = v1,
                    row_count = (if length row > 2 then row ! 2 else PyInt 0),
                    database = db, schema = sch\<rparr>))"

text \<open>The loop \<open>for row in results: stale_tables.append({...})\<close>.\<close>

fun stale_records :: "string \<Rightarrow> string \<Rightarrow> row list \<Rightarrow> exn + stale_table list" where
  "stale_records db sch [] = Inr []"
| "stale_records db sch (row # results) =
     (case stale_record db sch row of
        Inl e \<Rightarrow> Inl e
      | Inr r \<Rightarrow>
          (case stale_records db sch results of
             Inl e \<Rightarrow> Inl e
           | Inr stale_tables \<Rightarrow> Inr (r # stale_tables)))"

definition find_stale_tables_try ::
  "'c conn \<Rightarrow> string \<Rightarrow> string \<Rightarrow> int \<Rightarrow> 'c app \<Rightarrow> (exn + stale_table list) \<times> 'c app" where
  "find_stale_tables_try conn db sch days_threshold a =
     (case execute_query conn (stale_query db sch days_threshold) a of
        (Inl e, a1) \<Rightarrow> (Inl e, a1)
      | (Inr results, a1) \<Rightarrow> (stale_records db sch results, a1))"

definition find_stale_tables ::
  "'c conn \<Rightarrow> string \<Rightarrow> string \<Rightarrow> int \<Rightarrow> 'c app \<Rightarrow> (exn + stale_table list) \<times> 'c app" where
  "find_stale_tables conn db sch days_threshold a =
     (case find_stale_tables_try conn db sch days_threshold a of
        (Inr stale_tables, a1) \<Rightarrow> (Inr stale_tables, a1)
      | (Inl e, a1) \<Rightarrow> (Inr [], a1\<lparr>ui := ui a1 @ [ErrorFindingStaleTables (str_exn e)]\<rparr>))"

subsection \<open>repair\_table and the repair loop of main\<close>

text \<open>
  The whole body of \<open>repair_table\<close> is inside its \<open>try\<close>, and the handler returns
  \<open>(False, str(e))\<close>: the function returns a pair on every path.
\<close>

definition repair_table ::
  "'c conn \<Rightarrow> string \<Rightarrow> string \<Rightarrow> string \<Rightarrow> 'c app \<Rightarrow> (bool \<times> string) \<times> 'c app" where
  "repair_table conn db sch tbl a =
     (case execute_query conn (refresh_query db sch tbl) a of
        (Inl e, a1) \<Rightarrow> ((False, str_exn e), a1)
      | (Inr _, a1) \<Rightarrow>
          (case execute_query conn (auto_refresh_query db sch tbl) a1 of
             (Inl e, a2) \<Rightarrow> ((False, str_exn e), a2)
           | (Inr _, a2) \<Rightarrow> ((True, ''Success''), a2)))"



section \<open>The catalog sync job (databricks\_create\_mdlh\_setup.py)\<close>

subsection \<open>Configuration\<close>

text \<open>
  \<open>str.lower()\<close> on the ASCII letters; other characters are left as they are (no
  character outside ASCII lowers to a letter of "true").
\<close>

definition lower_char :: "char \<Rightarrow> char" where
  "lower_char c =
     (if 65 \<le> (of_char c :: nat) \<and> (of_char c :: nat) \<le> 90
      then char_of ((of_char c :: nat) + 32) else c)"

text \<open>
  \<^verbatim>\<open>os.getenv("HISTORY_NAMESPACE_SYNC", "false").lower() == "true"\<close>, from the value
  of the environment variable (\<open>None\<close> when it is not set).
\<close>

definition history_namespace_sync_of_env :: "string option \<Rightarrow> bool" where
  "history_namespace_sync_of_env v =
     (map lower_char (case v of None \<Rightarrow> ''false'' | Some x \<Rightarrow> x) = ''true'')"

text \<open>The two settings the loop of \<open>main\<close> reads.\<close>

record config =
  DBX_CATALOG_NAME :: string
  HISTORY_NAMESPACE_SYNC :: bool

subsection \<open>The collaborators\<close>

text \<open>
  A namespace as the catalog lists it: a tuple of strings, or a flat string. A loaded
  table: its \<open>metadata_location\<close> (which may be \<open>None\<close>) and the text that
  formatting its \<open>identifier\<close> gives.
\<close>

datatype ns_ref = NsTuple "string list" | NsStr string

record table =
  metadata_location :: "string option"
  identifier_text :: string

text \<open>
  The catalog client and the Spark session, as transition functions on the state
  \<open>'w\<close> of the outside world; \<open>'h\<close> is a catalog handle. \<open>load_catalog\<close> takes
  the catalog name and the warehouse name (URI, credential and scope are fixed).
  \<open>spark_session\<close> is \<open>SparkSession.builder.getOrCreate()\<close> with the
  \<open>spark.conf.set\<close> that follows it.
\<close>

record ('w, 'h) platform =
  load_catalog :: "string \<Rightarrow> string \<Rightarrow> 'w \<Rightarrow> (exn + 'h) \<times> 'w"
  catalog_list_namespaces :: "'h \<Rightarrow> 'w \<Rightarrow> (exn + ns_ref list) \<times> 'w"
  catalog_list_tables :: "'h \<Rightarrow> string \<Rightarrow> 'w \<Rightarrow> (exn + string list list) \<times> 'w"
  catalog_load_table :: "'h \<Rightarrow> string list \<Rightarrow> 'w \<Rightarrow> (exn + table) \<times> 'w"
  spark_sql :: "string \<Rightarrow> 'w \<Rightarrow> (exn + unit) \<times> 'w"
  spark_session :: "'w \<Rightarrow> (exn + unit) \<times> 'w"

text \<open>
  A record of every call made to a collaborator. The calls inside the loop of
  \<open>main\<close> carry the namespace the loop is at (\<open>spark.sql\<close> itself receives
  it only inside the text of the statement); \<open>CreateSchema\<close> and \<open>CreateTable\<close>
  are the two calls of \<open>spark.sql\<close>, with the statement as last argument.
\<close>

datatype call =
    LoadCatalog string string
  | ListNamespaces
  | ListTables string
  | LoadTable string "string list"
  | CreateSchema string string
  | CreateTable string string string
  | GetSpark

fun call_namespace :: "call \<Rightarrow> string option" where
  "call_namespace (LoadCatalog name warehouse) = None"
| "call_namespace ListNamespaces = None"
| "call_namespace (ListTables namespace) = Some namespace"
| "call_namespace (LoadTable namespace table_identifier) = Some namespace"
| "call_namespace (CreateSchema namespace sql) = Some namespace"
| "call_namespace (CreateTable namespace tbl sql) = Some namespace"
| "call_namespace GetSpark = None"

text \<open>The lines written to the log, one constructor per call site of the source.\<close>

datatype log_entry =
    LogStarting
  | LogDetecting
  | LogUsingCatalog string
  | LogNotAccessible string
  | LogConnected string
  | LogFound "ns_ref list"
  | LogSkipHistory
  | LogProcessing string
  | LogSchemaFailed string exn
  | LogListFailed string exn
  | LogCreating string
  | LogCreated string
  | LogTableFailed string string exn
  | LogCompleted

text \<open>
  The state of a run: the outside world, the three attributes of the
  \<open>PolarisSQLReader\<close> object, the calls made and the log.
\<close>

record ('w, 'h) run =
  world :: 'w
  catalog :: "'h option"
  catalog_name :: "string option"
  warehouse_name :: "string option"
  calls :: "call list"
  logs :: "log_entry list"

definition say :: "log_entry \<Rightarrow> ('w, 'h) run \<Rightarrow> ('w, 'h) run" where
  "say entry s = s\<lparr>logs := logs s @ [entry]\<rparr>"

text \<open>A call of a collaborator: the world moves on and the call is recorded.\<close>

definition invoke ::
  "call \<Rightarrow> ('w \<Rightarrow> (exn + 'a) \<times> 'w) \<Rightarrow> ('w, 'h) run \<Rightarrow> (exn + 'a) \<times> ('w, 'h) run" where
  "invoke c f s = (case f (world s) of (r, w) \<Rightarrow> (r, s\<lparr>world := w, calls := calls s @ [c]\<rparr>))"

subsection \<open>PolarisSQLReader\<close>

text \<open>The loop \<open>for candidate in ["atlan-wh", "context_store"]\<close> of \<open>detect_catalog\<close>.\<close>

fun detect_candidates ::
  "('w, 'h) platform \<Rightarrow> string list \<Rightarrow> ('w, 'h) run \<Rightarrow> (exn + string \<times> string) \<times> ('w, 'h) run" where
  "detect_candidates P [] s = (Inl (RuntimeError ''No valid Polaris catalog found''), s)"
| "detect_candidates P (candidate # rest) s =
     (case invoke (LoadCatalog candidate candidate) (load_catalog P candidate candidate) s of
        (Inl e, s1) \<Rightarrow> detect_candidates P rest (say (LogNotAccessible candidate) s1)
      | (Inr test_catalog, s1) \<Rightarrow>
          (case invoke ListNamespaces (catalog_list_namespaces P test_catalog) s1 of
             (Inl e, s2) \<Rightarrow> detect_candidates P rest (say (LogNotAccessible candidate) s2)
           | (Inr namespaces, s2) \<Rightarrow>
               if namespaces \<noteq> [] then
                 (Inr (candidate, candidate), say (LogUsingCatalog candidate) s2)
               else detect_candidates P rest s2))"

definition detect_catalog ::
  "('w, 'h) platform \<Rightarrow> ('w, 'h) run \<Rightarrow> (exn + string \<times> string) \<times> ('w, 'h) run" where
  "detect_catalog P s = detect_candidates P [''atlan-wh'', ''context_store''] (say LogDetecting s)"

definition connect_to_catalog ::
  "('w, 'h) platform \<Rightarrow> ('w, 'h) run \<Rightarrow> (exn + unit) \<times> ('w, 'h) run" where
  "connect_to_catalog P s =
     (case catalog s of
        Some h \<Rightarrow> (Inr (), s)
      | None \<Rightarrow>
          (case detect_catalog P s of
             (Inl e, s1) \<Rightarrow> (Inl e, s1)
           | (Inr (name, warehouse), s1) \<Rightarrow>
               (let s2 = s1\<lparr>catalog_name := Some name, warehouse_name := Some warehouse\<rparr>
                in case invoke (LoadCatalog name warehouse) (load_catalog P name warehouse) s2 of
                     (Inl e, s3) \<Rightarrow> (Inl e, s3)
                   | (Inr h, s3) \<Rightarrow> (Inr (), say (LogConnected name) (s3\<lparr>catalog := Some h\<rparr>)))))"

text \<open>\<open>ns[0] if isinstance(ns, tuple) else ns\<close>, and the list comprehension over it.\<close>

fun first_or_self :: "ns_ref \<Rightarrow> exn + string" where
  "first_or_self (NsTuple []) = Inl (IndexError ''tuple index out of range'')"
| "first_or_self (NsTuple (x # xs)) = Inr x"
| "first_or_self (NsStr n) = Inr n"

fun normalize_all :: "ns_ref list \<Rightarrow> exn + string list" where
  "normalize_all [] = Inr []"
| "normalize_all (ns # namespaces) =
     (case first_or_self ns of
        Inl e \<Rightarrow> Inl e
      | Inr n \<Rightarrow>
          (case normalize_all namespaces of
             Inl e \<Rightarrow> Inl e
           | Inr names \<Rightarrow> Inr (n # names)))"

text \<open>
  After \<open>connect_to_catalog\<close> has returned, \<open>self.catalog\<close> is set; a call of a
  method on \<open>None\<close> would raise AttributeError.
\<close>

definition list_namespaces ::
  "('w, 'h) platform \<Rightarrow> ('w, 'h) run \<Rightarrow> (exn + string list) \<times> ('w, 'h) run" where
  "list_namespaces P s =
     (case connect_to_catalog P s of
        (Inl e, s1) \<Rightarrow> (Inl e, s1)
      | (Inr _, s1) \<Rightarrow>
          (case catalog s1 of
             None \<Rightarrow> (Inl (AttributeError ''list_namespaces''), s1)
           | Some h \<Rightarrow>
               (case invoke ListNamespaces (catalog_list_namespaces P h) s1 of
                  (Inl e, s2) \<Rightarrow> (Inl e, s2)
                | (Inr namespaces, s2) \<Rightarrow>
                    (normalize_all namespaces, say (LogFound namespaces) s2))))"

definition list_tables ::
  "('w, 'h) platform \<Rightarrow> string \<Rightarrow> ('w, 'h) run \<Rightarrow> (exn + string list list) \<times> ('w, 'h) run" where
  "list_tables P namespace s =
     (case connect_to_catalog P s of
        (Inl e, s1) \<Rightarrow> (Inl e, s1)
      | (Inr _, s1) \<Rightarrow>
          (case catalog s1 of
             None \<Rightarrow> (Inl (AttributeError ''list_tables''), s1)
           | Some h \<Rightarrow> invoke (ListTables namespace) (catalog_list_tables P h namespace) s1))"

subsection \<open>Helpers and SQL texts\<close>

definition get_metadata_path :: "table \<Rightarrow> exn + string" where
  "get_metadata_path t =
     (case metadata_location t of
        None \<Rightarrow> Inl (ValueError (''No metadata location for '' @ identifier_text t))
      | Some location \<Rightarrow>
          if location = [] then
            Inl (ValueError (''No metadata location for '' @ identifier_text t))
          else Inr location)"

text \<open>\<open>table_identifier[-1]\<close>\<close>

definition py_last :: "'a list \<Rightarrow> exn + 'a" where
  "py_last xs = (if xs = [] then Inl (IndexError ''tuple index out of range'') else Inr (last xs))"

definition create_schema_sql :: "string \<Rightarrow> string \<Rightarrow> string" where
  "create_schema_sql dbx namespace =
     ''CREATE SCHEMA IF NOT EXISTS '' @ dbx @ ''.'' @ [backtick] @ namespace @ [backtick]"

definition full_table_name :: "string \<Rightarrow> string \<Rightarrow> string \<Rightarrow> string" where
  "full_table_name dbx namespace tbl =
     dbx @ ''.'' @ [backtick] @ namespace @ [backtick] @ ''.'' @ [backtick] @ tbl @ [backtick]"

definition create_table_sql :: "string \<Rightarrow> string \<Rightarrow> string" where
  "create_table_sql full_table metadata_path =
     [newline] @ ''                CREATE TABLE IF NOT EXISTS '' @ full_table @
     [newline] @ ''                UNIFORM ICEBERG'' @
     [newline] @ ''                METADATA_PATH '' @ [squote] @ metadata_path @ [squote] @
     [newline] @ ''                ''"

subsection \<open>main\<close>

text \<open>The body of the \<open>try\<close> block for one table identifier.\<close>

definition create_table_try ::
  "('w, 'h) platform \<Rightarrow> config \<Rightarrow> string \<Rightarrow> string list \<Rightarrow> ('w, 'h) run
    \<Rightarrow> (exn + unit) \<times> ('w, 'h) run" where
  "create_table_try P cfg namespace table_identifier s =
     (case (case catalog s of
              None \<Rightarrow> (Inl (AttributeError ''load_table''), s)
            | Some h \<Rightarrow>
                invoke (LoadTable namespace table_identifier)
                  (catalog_load_table P h table_identifier) s) of
        (Inl e, s1) \<Rightarrow> (Inl e, s1)
      | (Inr t, s1) \<Rightarrow>
          (case get_metadata_path t of
             Inl e \<Rightarrow> (Inl e, s1)
           | Inr metadata_path \<Rightarrow>
               (case py_last table_identifier of
                  Inl e \<Rightarrow> (Inl e, s1)
                | Inr tbl \<Rightarrow>
                    (let full_table = full_table_name (DBX_CATALOG_NAME cfg) namespace tbl;
                         sql = create_table_sql full_table metadata_path
                     in case invoke (CreateTable namespace tbl sql) (spark_sql P sql)
                               (say (LogCreating sql) s1) of
                          (Inl e, s2) \<Rightarrow> (Inl e, s2)
                        | (Inr _, s2) \<Rightarrow> (Inr (), say (LogCreated full_table) s2)))))"

text \<open>
  The loop \<open>for table_identifier in tables\<close>. The handler formats
  \<open>table_identifier[-1]\<close> again for its log line; on an empty identifier that raises
  outside any \<open>try\<close>.
\<close>

fun create_tables ::
  "('w, 'h) platform \<Rightarrow> config \<Rightarrow> string \<Rightarrow> string list list \<Rightarrow> ('w, 'h) run
    \<Rightarrow> (exn + unit) \<times> ('w, 'h) run" where
  "create_tables P cfg namespace [] s = (Inr (), s)"
| "create_tables P cfg namespace (table_identifier # tables) s =
     (case create_table_try P cfg namespace table_identifier s of
        (Inr _, s1) \<Rightarrow> create_tables P cfg namespace tables s1
      | (Inl e, s1) \<Rightarrow>
          (case py_last table_identifier of
             Inl e' \<Rightarrow> (Inl e', s1)
           | Inr tbl \<Rightarrow>
               create_tables P cfg namespace tables
                 (say (LogTableFailed namespace tbl e) s1)))"

text \<open>The loop \<open>for namespace in namespaces\<close>.\<close>

fun sync_namespaces ::
  "('w, 'h) platform \<Rightarrow> config \<Rightarrow> string list \<Rightarrow> ('w, 'h) run \<Rightarrow> (exn + unit) \<times> ('w, 'h) run" where
  "sync_namespaces P cfg [] s = (Inr (), s)"
| "sync_namespaces P cfg (namespace # namespaces) s =
     (if namespace = ''atlan-history'' \<and> \<not> HISTORY_NAMESPACE_SYNC cfg then
        sync_namespaces P cfg namespaces (say LogSkipHistory s)
      else
        (case invoke (CreateSchema namespace (create_schema_sql (DBX_CATALOG_NAME cfg) namespace))
                (spark_sql P (create_schema_sql (DBX_CATALOG_NAME cfg) namespace))
                (say (LogProcessing namespace) s) of
           (Inl e, s1) \<Rightarrow> sync_namespaces P cfg namespaces (say (LogSchemaFailed namespace e) s1)
         | (Inr _, s1) \<Rightarrow>
             (case list_tables P namespace s1 of
                (Inl e, s2) \<Rightarrow>
                  sync_namespaces P cfg namespaces (say (LogListFailed namespace e) s2)
              | (Inr tables, s2) \<Rightarrow>
                  (case create_tables P cfg namespace tables s2 of
                     (Inl e, s3) \<Rightarrow> (Inl e, s3)
                   | (Inr _, s3) \<Rightarrow> sync_namespaces P cfg namespaces s3))))"

definition main :: "('w, 'h) platform \<Rightarrow> config \<Rightarrow> ('w, 'h) run \<Rightarrow> (exn + unit) \<times> ('w, 'h) run" where
  "main P cfg s =
     (case invoke GetSpark (spark_session P) (say LogStarting s) of
        (Inl e, s1) \<Rightarrow> (Inl e, s1)
      | (Inr _, s1) \<Rightarrow>
          (case list_namespaces P s1 of
             (Inl e, s2) \<Rightarrow> (Inl e, s2)
           | (Inr namespaces, s2) \<Rightarrow>
               (case sync_namespaces P cfg namespaces s2 of
                  (Inl e, s3) \<Rightarrow> (Inl e, s3)
                | (Inr _, s3) \<Rightarrow> (Inr (), say LogCompleted s3))))"

section \<open>Notions used to state the properties\<close>

subsection \<open>Table maintenance app\<close>

text \<open>An app state with nothing sent and nothing shown, on a session in state \<open>c\<close>.\<close>

definition fresh_app :: "'c \<Rightarrow> 'c app" where
  "fresh_app c = \<lparr>session = c, sent = [], ui = [], repair_results = []\<rparr>"






text \<open>
  Sessions for concrete runs: one whose third statement fails, and one that answers
  every statement with the same rows. A formatter for timestamps.
\<close>

definition third_fails :: "nat conn" where
  "third_fails c query = (if c = 2 then Inl (ExternalError ''boom'') else Inr [], c + 1)"

definition answers :: "row list \<Rightarrow> unit conn" where
  "answers rows c query = (Inr rows, c)"

definition no_datetime :: "int \<Rightarrow> string" where
  "no_datetime t = []"

subsection \<open>Catalog sync job\<close>

text \<open>
  A candidate qualifies, in a given state of the world, when connecting to it succeeds
  and listing its namespaces succeeds with a non-empty list; \<open>world_after_probe\<close> is
  the state of the world after these one or two calls.
\<close>

definition candidate_qualifies :: "('w, 'h) platform \<Rightarrow> string \<Rightarrow> 'w \<Rightarrow> bool" where
  "candidate_qualifies P candidate w =
     (case load_catalog P candidate candidate w of
        (Inl e, w1) \<Rightarrow> False
      | (Inr h, w1) \<Rightarrow>
          (case catalog_list_namespaces P h w1 of
             (Inl e, w2) \<Rightarrow> False
           | (Inr namespaces, w2) \<Rightarrow> namespaces \<noteq> []))"

definition world_after_probe :: "('w, 'h) platform \<Rightarrow> string \<Rightarrow> 'w \<Rightarrow> 'w" where
  "world_after_probe P candidate w =
     (case load_catalog P candidate candidate w of
        (Inl e, w1) \<Rightarrow> w1
      | (Inr h, w1) \<Rightarrow> snd (catalog_list_namespaces P h w1))"

text \<open>
  The first candidate of a list that qualifies when its turn comes, and the candidates
  that are tried up to and including it.
\<close>

fun first_qualifying :: "('w, 'h) platform \<Rightarrow> string list \<Rightarrow> 'w \<Rightarrow> string option" where
  "first_qualifying P [] w = None"
| "first_qualifying P (candidate # rest) w =
     (if candidate_qualifies P candidate w then Some candidate
      else first_qualifying P rest (world_after_probe P candidate w))"

fun candidates_tried :: "('w, 'h) platform \<Rightarrow> string list \<Rightarrow> 'w \<Rightarrow> string list" where
  "candidates_tried P [] w = []"
| "candidates_tried P (candidate # rest) w =
     candidate # (if candidate_qualifies P candidate w then []
                  else candidates_tried P rest (world_after_probe P candidate w))"

text \<open>The names passed to \<open>load_catalog\<close>, in the order of the calls.\<close>

fun catalogs_loaded :: "call list \<Rightarrow> string list" where
  "catalogs_loaded [] = []"
| "catalogs_loaded (LoadCatalog name warehouse # cs) = name # catalogs_loaded cs"
| "catalogs_loaded (c # cs) = catalogs_loaded cs"

text \<open>
  A listed namespace and the name \<open>list_namespaces\<close> returns for it: the first
  element of a (non-empty) tuple, a flat string itself.
\<close>

definition normalizes :: "ns_ref \<Rightarrow> string \<Rightarrow> bool" where
  "normalizes ns n = (case ns of NsTuple xs \<Rightarrow> xs \<noteq> [] \<and> n = hd xs | NsStr m \<Rightarrow> n = m)"

text \<open>
  From state \<open>s\<close> to state \<open>s'\<close> the record of calls has only grown, and every call
  added satisfies \<open>ok\<close>.
\<close>

definition calls_added :: "(call \<Rightarrow> bool) \<Rightarrow> ('w, 'h) run \<Rightarrow> ('w, 'h) run \<Rightarrow> bool" where
  "calls_added ok s s' =
     (take (length (calls s)) (calls s') = calls s \<and>
      list_all ok (drop (length (calls s)) (calls s')))"







text \<open>
  A platform for concrete runs: the catalog "atlan-wh" is not accessible, "context\_store"
  lists three namespaces, every namespace has one table, and creating the schema
  "bad" fails.
\<close>

definition demo_platform :: "(unit, string) platform" where
  "demo_platform =
     \<lparr>load_catalog =
        (\<lambda>name warehouse w.
           if name = ''atlan-wh'' then (Inl (ExternalError ''not found''), w) else (Inr name, w)),
      catalog_list_namespaces =
        (\<lambda>h w. (Inr [NsTuple [''bad''], NsStr ''atlan-history'', NsTuple [''good'', ''x'']], w)),
      catalog_list_tables = (\<lambda>h namespace w. (Inr [[namespace, ''t'']], w)),
      catalog_load_table =
        (\<lambda>h ident w. (Inr \<lparr>metadata_location = Some ''s3://m'', identifier_text = ''t''\<rparr>, w)),
      spark_sql =
        (\<lambda>sql w.
           if sql = create_schema_sql ''dbx'' ''bad'' then (Inl (ExternalError ''denied''), w)
           else (Inr (), w)),
      spark_session = (\<lambda>w. (Inr (), w))\<rparr>"

definition demo_config :: config where
  "demo_config = \<lparr>DBX_CATALOG_NAME = ''dbx'', HISTORY_NAMESPACE_SYNC = False\<rparr>"

definition fresh_run :: "(unit, string) run" where
  "fresh_run =
     \<lparr>world = (), catalog = None, catalog_name = None, warehouse_name = None,
      calls = [], logs = []\<rparr>"

definition connected_run :: "(unit, string) run" where
  "connected_run =
     \<lparr>world = (), catalog = Some ''context_store'', catalog_name = Some ''context_store'',
      warehouse_name = Some ''context_store'', calls = [], logs = []\<rparr>"

section \<open>Properties of the table maintenance app\<close>

subsection \<open>Identifier quoting\<close>

text \<open>
  C8. Identifier quoting is idempotent: quoting the result of quoting is the same as
  quoting once, and an identifier that is already quoted (for the code: it starts with a
  double quote) is returned unchanged.
\<close>

theorem quoted_idempotent:
  "quoted (quoted x) = quoted x \<and> (startswith_dquote x \<longrightarrow> quoted x = x)"
proof -
  have "startswith_dquote (quoted x)"
    by (simp add: quoted_def startswith_dquote_def split: list.splits)
  then show ?thesis
    by (simp add: quoted_def [of "quoted x"]) (simp add: quoted_def)
qed

text \<open>A bare identifier is wrapped once; the wrapped identifier is left as it is.\<close>

theorem quoted_idempotent_witness:
  "quoted ''db'' = [dquote] @ ''db'' @ [dquote]
   \<and> quoted (quoted ''db'') = [dquote] @ ''db'' @ [dquote]
   \<and> quoted ([dquote] @ ''db'' @ [dquote]) = [dquote] @ ''db'' @ [dquote]"
  using quoted_idempotent [of "''db''"] quoted_idempotent [of "[dquote] @ ''db'' @ [dquote]"]
  by (simp add: quoted_def startswith_dquote_def dquote_def)

subsection \<open>repair\_table\<close>

text \<open>\<open>repair_table\<close> in terms of the two answers of the session.\<close>

lemma repair_table_unfold:
  "repair_table conn db sch tbl a =
     (case conn (session a) (refresh_query db sch tbl) of
        (Inl e, c1) \<Rightarrow>
          ((False, str_exn e),
           a\<lparr>session := c1, sent := sent a @ [refresh_query db sch tbl],
             ui := ui a @ [QueryExecutionError (str_exn e)]\<rparr>)
      | (Inr r1, c1) \<Rightarrow>
          (case conn c1 (auto_refresh_query db sch tbl) of
             (Inl e, c2) \<Rightarrow>
               ((False, str_exn e),
                a\<lparr>session := c2,
                  sent := sent a @ [refresh_query db sch tbl, auto_refresh_query db sch tbl],
                  ui := ui a @ [QueryExecutionError (str_exn e)]\<rparr>)
           | (Inr r2, c2) \<Rightarrow>
               ((True, ''Success''),
                a\<lparr>session := c2,
                  sent := sent a @ [refresh_query db sch tbl, auto_refresh_query db sch tbl]\<rparr>)))"
proof -
  obtain x c1 where x: "conn (session a) (refresh_query db sch tbl) = (x, c1)"
    by (metis surj_pair)
  obtain y c2 where y: "conn c1 (auto_refresh_query db sch tbl) = (y, c2)"
    by (metis surj_pair)
  show ?thesis
  proof (cases x)
    case (Inl e)
    with x show ?thesis
      by (simp add: repair_table_def execute_query_def)
  next
    case (Inr r1)
    with x y show ?thesis
      by (cases y) (simp_all add: repair_table_def execute_query_def)
  qed
qed

text \<open>
  C2. For every database, schema and table name, \<open>repair_table\<close> returns
  \<open>success = True\<close> if and only if the REFRESH statement and then the SET
  AUTO\_REFRESH statement both execute without error, and in that case both statements
  have been sent, in this order, to the session. If the REFRESH statement raises, the
  outcome is a failure carrying the text of the error, and REFRESH is the only
  statement sent: the AUTO\_REFRESH statement is never executed. If REFRESH executes
  and AUTO\_REFRESH raises, the outcome is a failure carrying the text of that error.
\<close>

theorem repair_table_success_iff:
  "(fst (fst (repair_table conn db sch tbl a)) \<longleftrightarrow>
      (\<exists>r1 c1 r2 c2. conn (session a) (refresh_query db sch tbl) = (Inr r1, c1) \<and>
                     conn c1 (auto_refresh_query db sch tbl) = (Inr r2, c2)))
   \<and> (\<forall>r1 c1 r2 c2.
         conn (session a) (refresh_query db sch tbl) = (Inr r1, c1) \<and>
         conn c1 (auto_refresh_query db sch tbl) = (Inr r2, c2) \<longrightarrow>
         repair_table conn db sch tbl a =
           ((True, ''Success''),
            a\<lparr>session := c2,
              sent := sent a @ [refresh_query db sch tbl, auto_refresh_query db sch tbl]\<rparr>))
   \<and> (\<forall>e c1. conn (session a) (refresh_query db sch tbl) = (Inl e, c1) \<longrightarrow>
         repair_table conn db sch tbl a =
           ((False, str_exn e),
            a\<lparr>session := c1, sent := sent a @ [refresh_query db sch tbl],
              ui := ui a @ [QueryExecutionError (str_exn e)]\<rparr>))
   \<and> (\<forall>r1 c1 e c2.
         conn (session a) (refresh_query db sch tbl) = (Inr r1, c1) \<and>
         conn c1 (auto_refresh_query db sch tbl) = (Inl e, c2) \<longrightarrow>
         repair_table conn db sch tbl a =
           ((False, str_exn e),
            a\<lparr>session := c2,
              sent := sent a @ [refresh_query db sch tbl, auto_refresh_query db sch tbl],
              ui := ui a @ [QueryExecutionError (str_exn e)]\<rparr>))"
proof -
  have 1: "fst (fst (repair_table conn db sch tbl a)) \<longleftrightarrow>
      (\<exists>r1 c1 r2 c2. conn (session a) (refresh_query db sch tbl) = (Inr r1, c1) \<and>
                     conn c1 (auto_refresh_query db sch tbl) = (Inr r2, c2))"
    by (auto simp add: repair_table_unfold split: prod.splits sum.splits)
  have 2: "\<forall>r1 c1 r2 c2.
         conn (session a) (refresh_query db sch tbl) = (Inr r1, c1) \<and>
         conn c1 (auto_refresh_query db sch tbl) = (Inr r2, c2) \<longrightarrow>
         repair_table conn db sch tbl a =
           ((True, ''Success''),
            a\<lparr>session := c2,
              sent := sent a @ [refresh_query db sch tbl, auto_refresh_query db sch tbl]\<rparr>)"
    by (simp add: repair_table_unfold)
  have 3: "\<forall>e c1. conn (session a) (refresh_query db sch tbl) = (Inl e, c1) \<longrightarrow>
         repair_table conn db sch tbl a =
           ((False, str_exn e),
            a\<lparr>session := c1, sent := sent a @ [refresh_query db sch tbl],
              ui := ui a @ [QueryExecutionError (str_exn e)]\<rparr>)"
    by (simp add: repair_table_unfold)
  have 4: "\<forall>r1 c1 e c2.
         conn (session a) (refresh_query db sch tbl) = (Inr r1, c1) \<and>
         conn c1 (auto_refresh_query db sch tbl) = (Inl e, c2) \<longrightarrow>
         repair_table conn db sch tbl a =
           ((False, str_exn e),
            a\<lparr>session := c2,
              sent := sent a @ [refresh_query db sch tbl, auto_refresh_query db sch tbl],
              ui := ui a @ [QueryExecutionError (str_exn e)]\<rparr>)"
    by (simp add: repair_table_unfold)
  from 1 2 3 4 show ?thesis by blast
qed

text \<open>
  On a session whose third statement fails. A repair that starts at the first statement
  succeeds after both statements were sent; one whose REFRESH is the third statement
  fails after sending it alone; one whose AUTO\_REFRESH is the third statement fails
  after sending both.
\<close>

theorem repair_table_witness:
  "repair_table third_fails ''DB'' ''S'' ''T'' (fresh_app 0) =
       ((True, ''Success''),
        \<lparr>session = 2,
         sent = [refresh_query ''DB'' ''S'' ''T'', auto_refresh_query ''DB'' ''S'' ''T''],
         ui = [], repair_results = []\<rparr>)
   \<and> repair_table third_fails ''DB'' ''S'' ''T'' (fresh_app 2) =
       ((False, ''boom''),
        \<lparr>session = 3, sent = [refresh_query ''DB'' ''S'' ''T''],
         ui = [QueryExecutionError ''boom''], repair_results = []\<rparr>)
   \<and> repair_table third_fails ''DB'' ''S'' ''T'' (fresh_app 1) =
       ((False, ''boom''),
        \<lparr>session = 3,
         sent = [refresh_query ''DB'' ''S'' ''T'', auto_refresh_query ''DB'' ''S'' ''T''],
         ui = [QueryExecutionError ''boom''], repair_results = []\<rparr>)"
  using repair_table_success_iff [of third_fails "''DB''" "''S''" "''T''" "fresh_app 0"]
    repair_table_success_iff [of third_fails "''DB''" "''S''" "''T''" "fresh_app 2"]
    repair_table_success_iff [of third_fails "''DB''" "''S''" "''T''" "fresh_app 1"]
  by (simp add: third_fails_def fresh_app_def)

subsection \<open>The repair loop\<close>












subsection \<open>The stale-table detector\<close>

text \<open>\<open>find_stale_tables\<close> and \<open>list_schemas\<close> in terms of the session's answer.\<close>

lemma find_stale_tables_unfold:
  "find_stale_tables conn db sch n a =
     (case conn (session a) (stale_query db sch n) of
        (Inl e, c) \<Rightarrow>
          (Inr [], a\<lparr>session := c, sent := sent a @ [stale_query db sch n],
                     ui := ui a @ [QueryExecutionError (str_exn e),
                                   ErrorFindingStaleTables (str_exn e)]\<rparr>)
      | (Inr rows, c) \<Rightarrow>
          (case stale_records db sch rows of
             Inl e \<Rightarrow>
               (Inr [], a\<lparr>session := c, sent := sent a @ [stale_query db sch n],
                          ui := ui a @ [ErrorFindingStaleTables (str_exn e)]\<rparr>)
           | Inr stale \<Rightarrow>
               (Inr stale, a\<lparr>session := c, sent := sent a @ [stale_query db sch n]\<rparr>)))"
proof -
  obtain x c where x: "conn (session a) (stale_query db sch n) = (x, c)"
    by (metis surj_pair)
  show ?thesis
  proof (cases x)
    case (Inl e)
    with x show ?thesis
      by (simp add: find_stale_tables_def find_stale_tables_try_def execute_query_def)
  next
    case (Inr rows)
    with x show ?thesis
      by (cases "stale_records db sch rows")
        (simp_all add: find_stale_tables_def find_stale_tables_try_def execute_query_def)
  qed
qed

lemma list_schemas_unfold:
  "list_schemas sd conn db a =
     (case conn (session a) (schemata_query db) of
        (Inl e, c) \<Rightarrow>
          (Inr [], a\<lparr>session := c, sent := sent a @ [schemata_query db],
                     ui := ui a @ [QueryExecutionError (str_exn e),
                                   ErrorListingSchemas (str_exn e)]\<rparr>)
      | (Inr rows, c) \<Rightarrow>
          (case schema_names sd rows of
             Inl e \<Rightarrow>
               (Inr [], a\<lparr>session := c, sent := sent a @ [schemata_query db],
                          ui := ui a @ [ErrorListingSchemas (str_exn e)]\<rparr>)
           | Inr schemas \<Rightarrow>
               (Inr schemas, a\<lparr>session := c, sent := sent a @ [schemata_query db]\<rparr>)))"
proof -
  obtain x c where x: "conn (session a) (schemata_query db) = (x, c)"
    by (metis surj_pair)
  show ?thesis
  proof (cases x)
    case (Inl e)
    with x show ?thesis
      by (simp add: list_schemas_def list_schemas_try_def execute_query_def)
  next
    case (Inr rows)
    with x show ?thesis
      by (cases "schema_names sd rows")
        (simp_all add: list_schemas_def list_schemas_try_def execute_query_def)
  qed
qed

text \<open>
  C7. \<open>find_stale_tables\<close> and \<open>list_schemas\<close> never raise: for every input and
  every behaviour of the session the caller receives a list. When the execution of the
  query fails, the list is empty and the error is reported on the page (by
  \<open>execute_query\<close> and by the function itself); the same holds for any exception
  raised inside the \<open>try\<close> block.
\<close>

theorem detector_never_raises:
  "(\<exists>stale a1. find_stale_tables conn db sch n a = (Inr stale, a1))
   \<and> (\<exists>schemas a1. list_schemas sd conn db a = (Inr schemas, a1))
   \<and> (\<forall>e c. conn (session a) (stale_query db sch n) = (Inl e, c) \<longrightarrow>
         find_stale_tables conn db sch n a =
           (Inr [], a\<lparr>session := c, sent := sent a @ [stale_query db sch n],
                      ui := ui a @ [QueryExecutionError (str_exn e),
                                    ErrorFindingStaleTables (str_exn e)]\<rparr>))
   \<and> (\<forall>e c. conn (session a) (schemata_query db) = (Inl e, c) \<longrightarrow>
         list_schemas sd conn db a =
           (Inr [], a\<lparr>session := c, sent := sent a @ [schemata_query db],
                      ui := ui a @ [QueryExecutionError (str_exn e),
                                    ErrorListingSchemas (str_exn e)]\<rparr>))
   \<and> (\<forall>e a1. find_stale_tables_try conn db sch n a = (Inl e, a1) \<longrightarrow>
         find_stale_tables conn db sch n a =
           (Inr [], a1\<lparr>ui := ui a1 @ [ErrorFindingStaleTables (str_exn e)]\<rparr>))
   \<and> (\<forall>e a1. list_schemas_try sd conn db a = (Inl e, a1) \<longrightarrow>
         list_schemas sd conn db a =
           (Inr [], a1\<lparr>ui := ui a1 @ [ErrorListingSchemas (str_exn e)]\<rparr>))"
proof -
  have 1: "\<exists>stale a1. find_stale_tables conn db sch n a = (Inr stale, a1)"
    by (simp add: find_stale_tables_def split: prod.splits sum.splits)
  have 2: "\<exists>schemas a1. list_schemas sd conn db a = (Inr schemas, a1)"
    by (simp add: list_schemas_def split: prod.splits sum.splits)
  have 3: "\<forall>e c. conn (session a) (stale_query db sch n) = (Inl e, c) \<longrightarrow>
         find_stale_tables conn db sch n a =
           (Inr [], a\<lparr>session := c, sent := sent a @ [stale_query db sch n],
                      ui := ui a @ [QueryExecutionError (str_exn e),
                                    ErrorFindingStaleTables (str_exn e)]\<rparr>)"
    by (simp add: find_stale_tables_unfold)
  have 4: "\<forall>e c. conn (session a) (schemata_query db) = (Inl e, c) \<longrightarrow>
         list_schemas sd conn db a =
           (Inr [], a\<lparr>session := c, sent := sent a @ [schemata_query db],
                      ui := ui a @ [QueryExecutionError (str_exn e),
                                    ErrorListingSchemas (str_exn e)]\<rparr>)"
    by (simp add: list_schemas_unfold)
  have 5: "\<forall>e a1. find_stale_tables_try conn db sch n a = (Inl e, a1) \<longrightarrow>
         find_stale_tables conn db sch n a =
           (Inr [], a1\<lparr>ui := ui a1 @ [ErrorFindingStaleTables (str_exn e)]\<rparr>)"
    by (simp add: find_stale_tables_def)
  have 6: "\<forall>e a1. list_schemas_try sd conn db a = (Inl e, a1) \<longrightarrow>
         list_schemas sd conn db a =
           (Inr [], a1\<lparr>ui := ui a1 @ [ErrorListingSchemas (str_exn e)]\<rparr>)"
    by (simp add: list_schemas_def)
  from 1 2 3 4 5 6 show ?thesis by blast
qed

text \<open>Both functions on a session that fails at the query.\<close>

theorem detector_never_raises_witness:
  "find_stale_tables third_fails ''DB'' ''S'' 1 (fresh_app 2) =
     (Inr [], \<lparr>session = 3, sent = [stale_query ''DB'' ''S'' 1],
               ui = [QueryExecutionError ''boom'', ErrorFindingStaleTables ''boom''],
               repair_results = []\<rparr>)
   \<and> list_schemas no_datetime third_fails ''DB'' (fresh_app 2) =
     (Inr [], \<lparr>session = 3, sent = [schemata_query ''DB''],
               ui = [QueryExecutionError ''boom'', ErrorListingSchemas ''boom''],
               repair_results = []\<rparr>)"
  using detector_never_raises [of third_fails "''DB''" "''S''" 1 "fresh_app 2" no_datetime]
  by (simp add: third_fails_def fresh_app_def)

lemma stale_records_rows:
  "\<forall>row\<in>set rows. 2 \<le> length row \<Longrightarrow>
     stale_records db sch rows =
       Inr (map (\<lambda>row. \<lparr>table_name = row ! 0, last_altered = row ! 1,
                          row_count = (if length row > 2 then row ! 2 else PyInt 0),
                          database = db, schema = sch\<rparr>) rows)"
  by (induction rows) (auto simp add: stale_record_def py_index_def)

text \<open>
  C10, as stated, does not hold for every row with fewer than three columns: a row with
  fewer than two columns raises IndexError at \<open>row[1]\<close> (or \<open>row[0]\<close>), and the
  handler returns the empty list, so no record is produced, not even for the full row
  before it.
\<close>

theorem find_stale_tables_short_row_counterexample:
  "find_stale_tables (answers [[PyStr ''T1'', PyDatetime 5, PyInt 7], [PyStr ''T2'']])
       ''DB'' ''S'' 1 (fresh_app ()) =
     (Inr [],
      \<lparr>session = (), sent = [stale_query ''DB'' ''S'' 1],
       ui = [ErrorFindingStaleTables ''tuple index out of range''], repair_results = []\<rparr>)"
  by (simp add: find_stale_tables_unfold answers_def fresh_app_def stale_record_def py_index_def)

text \<open>
  C10, amended. When every row the session returns has at least two columns,
  \<open>find_stale_tables\<close> produces exactly one record per row, in order: its
  \<open>table_name\<close> and \<open>last_altered\<close> are the first two columns, its
  \<open>row_count\<close> is 0 when the row has fewer than three columns and the third column
  otherwise, and its \<open>database\<close> and \<open>schema\<close> are the arguments passed in.
\<close>

theorem find_stale_tables_record_per_row:
  assumes "conn (session a) (stale_query db sch n) = (Inr rows, c)"
    and "\<forall>row\<in>set rows. 2 \<le> length row"
  shows "\<exists>stale. find_stale_tables conn db sch n a =
             (Inr stale, a\<lparr>session := c, sent := sent a @ [stale_query db sch n]\<rparr>)
           \<and> length stale = length rows
           \<and> (\<forall>i<length rows.
                 table_name (stale ! i) = rows ! i ! 0
               \<and> last_altered (stale ! i) = rows ! i ! 1
               \<and> row_count (stale ! i) = (if length (rows ! i) < 3 then PyInt 0 else rows ! i ! 2)
               \<and> database (stale ! i) = db
               \<and> schema (stale ! i) = sch)"
proof -
  let ?mk = "\<lambda>row. \<lparr>table_name = row ! 0, last_altered = row ! 1,
                     row_count = (if length row > 2 then row ! 2 else PyInt 0),
                     database = db, schema = sch\<rparr>"
  have recs: "stale_records db sch rows = Inr (map ?mk rows)"
    using assms(2) by (rule stale_records_rows)
  have run: "find_stale_tables conn db sch n a =
      (Inr (map ?mk rows), a\<lparr>session := c, sent := sent a @ [stale_query db sch n]\<rparr>)"
    using assms(1) recs by (simp add: find_stale_tables_unfold)
  show ?thesis
    by (rule exI [of _ "map ?mk rows"]) (auto simp add: run)
qed

text \<open>A full row followed by a row of two columns.\<close>

theorem find_stale_tables_record_per_row_witness:
  "find_stale_tables (answers [[PyStr ''T1'', PyDatetime 5, PyInt 7], [PyStr ''T2'', PyDatetime 6]])
       ''DB'' ''S'' 1 (fresh_app ()) =
     (Inr [\<lparr>table_name = PyStr ''T1'', last_altered = PyDatetime 5, row_count = PyInt 7,
            database = ''DB'', schema = ''S''\<rparr>,
           \<lparr>table_name = PyStr ''T2'', last_altered = PyDatetime 6, row_count = PyInt 0,
            database = ''DB'', schema = ''S''\<rparr>],
      \<lparr>session = (), sent = [stale_query ''DB'' ''S'' 1], ui = [], repair_results = []\<rparr>)"
proof -
  let ?rows = "[[PyStr ''T1'', PyDatetime 5, PyInt 7], [PyStr ''T2'', PyDatetime 6]]"
  have r: "answers ?rows (session (fresh_app ())) (stale_query ''DB'' ''S'' 1) = (Inr ?rows, ())"
    by (simp add: answers_def)
  have l: "\<forall>row\<in>set ?rows. 2 \<le> length row"
    by simp
  from find_stale_tables_record_per_row [where conn = "answers ?rows" and a = "fresh_app ()", OF r l]
  obtain stale where
    run: "find_stale_tables (answers ?rows) ''DB'' ''S'' 1 (fresh_app ()) =
      (Inr stale, (fresh_app ())\<lparr>session := (), sent := sent (fresh_app ()) @ [stale_query ''DB'' ''S'' 1]\<rparr>)"
    and len: "length stale = length ?rows"
    and cells: "\<forall>i<length ?rows.
                 table_name (stale ! i) = ?rows ! i ! 0
               \<and> last_altered (stale ! i) = ?rows ! i ! 1
               \<and> row_count (stale ! i) = (if length (?rows ! i) < 3 then PyInt 0 else ?rows ! i ! 2)
               \<and> database (stale ! i) = ''DB''
               \<and> schema (stale ! i) = ''S''"
    by blast
  from len obtain r0 r1 where st: "stale = [r0, r1]"
    by (cases stale; cases "tl stale"; cases "tl (tl stale)") auto
  from cells [rule_format, of 0] cells [rule_format, of 1] st
  have "r0 = \<lparr>table_name = PyStr ''T1'', last_altered = PyDatetime 5, row_count = PyInt 7,
            database = ''DB'', schema = ''S''\<rparr>"
    and "r1 = \<lparr>table_name = PyStr ''T2'', last_altered = PyDatetime 6, row_count = PyInt 0,
            database = ''DB'', schema = ''S''\<rparr>"
    by simp_all
  with run st show ?thesis
    by (simp add: fresh_app_def)
qed

section \<open>Properties of the catalog sync job\<close>

lemma world_say [simp]: "world (say entry s) = world s"
  by (simp add: say_def)

lemma calls_say [simp]: "calls (say entry s) = calls s"
  by (simp add: say_def)

lemma catalog_say [simp]: "catalog (say entry s) = catalog s"
  by (simp add: say_def)

lemma invoke_eq:
  "invoke c f s = (fst (f (world s)), s\<lparr>world := snd (f (world s)), calls := calls s @ [c]\<rparr>)"
  by (simp add: invoke_def split_beta)

subsection \<open>detect\_catalog\<close>

lemma catalogs_loaded_append:
  "catalogs_loaded (xs @ ys) = catalogs_loaded xs @ catalogs_loaded ys"
  by (induction xs rule: catalogs_loaded.induct) simp_all

lemma detect_candidates_result:
  "fst (detect_candidates P cs s) =
     (case first_qualifying P cs (world s) of
        Some c \<Rightarrow> Inr (c, c)
      | None \<Rightarrow> Inl (RuntimeError ''No valid Polaris catalog found''))"
proof (induction cs arbitrary: s)
  case Nil
  then show ?case by simp
next
  case (Cons c cs)
  obtain x w1 where x: "load_catalog P c c (world s) = (x, w1)"
    by (metis surj_pair)
  show ?case
  proof (cases x)
    case (Inl e)
    with x show ?thesis
      by (simp add: invoke_eq Cons.IH candidate_qualifies_def world_after_probe_def)
  next
    case (Inr h)
    obtain y w2 where y: "catalog_list_namespaces P h w1 = (y, w2)"
      by (metis surj_pair)
    show ?thesis
    proof (cases y)
      case (Inl e)
      with x y Inr show ?thesis
        by (simp add: invoke_eq Cons.IH candidate_qualifies_def world_after_probe_def)
    next
      case r: (Inr namespaces)
      with x y Inr show ?thesis
        by (simp add: invoke_eq Cons.IH candidate_qualifies_def world_after_probe_def)
    qed
  qed
qed

lemma detect_candidates_calls:
  "catalogs_loaded (calls (snd (detect_candidates P cs s))) =
     catalogs_loaded (calls s) @ candidates_tried P cs (world s)"
proof (induction cs arbitrary: s)
  case Nil
  then show ?case by simp
next
  case (Cons c cs)
  obtain x w1 where x: "load_catalog P c c (world s) = (x, w1)"
    by (metis surj_pair)
  show ?case
  proof (cases x)
    case (Inl e)
    with x show ?thesis
      by (simp add: invoke_eq Cons.IH candidate_qualifies_def world_after_probe_def
          catalogs_loaded_append)
  next
    case (Inr h)
    obtain y w2 where y: "catalog_list_namespaces P h w1 = (y, w2)"
      by (metis surj_pair)
    show ?thesis
    proof (cases y)
      case (Inl e)
      with x y Inr show ?thesis
        by (simp add: invoke_eq Cons.IH candidate_qualifies_def world_after_probe_def
            catalogs_loaded_append)
    next
      case r: (Inr namespaces)
      with x y Inr show ?thesis
        by (simp add: invoke_eq Cons.IH candidate_qualifies_def world_after_probe_def
            catalogs_loaded_append)
    qed
  qed
qed

text \<open>
  C1. \<open>detect_catalog\<close> tries "atlan-wh" first and "context\_store" second. It returns
  "atlan-wh" when that candidate qualifies (connecting succeeds and its namespace list
  is non-empty); it tries "context\_store" only when "atlan-wh" does not qualify, and
  returns it when it qualifies; when neither qualifies it raises
  \<open>RuntimeError("No valid Polaris catalog found")\<close>.
\<close>

theorem detect_catalog_prefers_atlan_wh:
  "fst (detect_catalog P s) =
     (if candidate_qualifies P ''atlan-wh'' (world s) then Inr (''atlan-wh'', ''atlan-wh'')
      else if candidate_qualifies P ''context_store'' (world_after_probe P ''atlan-wh'' (world s))
      then Inr (''context_store'', ''context_store'')
      else Inl (RuntimeError ''No valid Polaris catalog found''))
   \<and> catalogs_loaded (calls (snd (detect_catalog P s))) =
       catalogs_loaded (calls s) @
       (if candidate_qualifies P ''atlan-wh'' (world s) then [''atlan-wh'']
        else [''atlan-wh'', ''context_store''])"
  unfolding detect_catalog_def detect_candidates_result detect_candidates_calls
  by simp

text \<open>A platform where "atlan-wh" is not accessible: the fallback is returned.\<close>

theorem detect_catalog_witness:
  "fst (detect_catalog demo_platform fresh_run) = Inr (''context_store'', ''context_store'')
   \<and> catalogs_loaded (calls (snd (detect_catalog demo_platform fresh_run))) =
       [''atlan-wh'', ''context_store'']"
  using detect_catalog_prefers_atlan_wh [of demo_platform fresh_run]
  by (simp add: candidate_qualifies_def world_after_probe_def demo_platform_def fresh_run_def)

subsection \<open>list\_namespaces\<close>

lemma normalize_all_ok:
  "NsTuple [] \<notin> set nss \<Longrightarrow>
     \<exists>names. normalize_all nss = Inr names \<and> list_all2 normalizes nss names"
proof (induction nss)
  case Nil
  then show ?case by simp
next
  case (Cons ns nss)
  then obtain names where n: "normalize_all nss = Inr names" "list_all2 normalizes nss names"
    by auto
  from Cons.prems have "ns \<noteq> NsTuple []" by auto
  then obtain x where x: "first_or_self ns = Inr x" "normalizes ns x"
    by (cases ns rule: first_or_self.cases) (simp_all add: normalizes_def)
  with n show ?case by simp
qed

lemma normalize_all_raises:
  "NsTuple [] \<in> set nss \<Longrightarrow> normalize_all nss = Inl (IndexError ''tuple index out of range'')"
proof (induction nss)
  case Nil
  then show ?case by simp
next
  case (Cons ns nss)
  show ?case
  proof (cases "ns = NsTuple []")
    case True
    then show ?thesis by simp
  next
    case False
    with Cons have "normalize_all nss = Inl (IndexError ''tuple index out of range'')"
      by simp
    then show ?thesis
      by (cases ns rule: first_or_self.cases) simp_all
  qed
qed

text \<open>
  C9. Once connected, \<open>list_namespaces\<close> returns the namespaces the catalog reports,
  one name per namespace and in the catalog's order: for a tuple its first element, for
  a flat string the string itself. (An empty tuple has no first element: the list
  comprehension then raises IndexError.)
\<close>

theorem list_namespaces_normalizes:
  assumes "connect_to_catalog P s = (Inr (), s1)"
    and "catalog s1 = Some h"
    and "catalog_list_namespaces P h (world s1) = (Inr reported, w)"
  shows "(NsTuple [] \<notin> set reported \<longrightarrow>
            (\<exists>names. fst (list_namespaces P s) = Inr names
               \<and> length names = length reported
               \<and> list_all2 normalizes reported names))
       \<and> (NsTuple [] \<in> set reported \<longrightarrow>
            fst (list_namespaces P s) = Inl (IndexError ''tuple index out of range''))"
proof -
  have run: "fst (list_namespaces P s) = normalize_all reported"
    using assms by (simp add: list_namespaces_def invoke_eq)
  show ?thesis
  proof (intro conjI impI)
    assume "NsTuple [] \<notin> set reported"
    then obtain names where "normalize_all reported = Inr names" "list_all2 normalizes reported names"
      using normalize_all_ok by blast
    with run show "\<exists>names. fst (list_namespaces P s) = Inr names
               \<and> length names = length reported
               \<and> list_all2 normalizes reported names"
      by (auto dest: list_all2_lengthD)
  next
    assume "NsTuple [] \<in> set reported"
    with run show "fst (list_namespaces P s) = Inl (IndexError ''tuple index out of range'')"
      by (simp add: normalize_all_raises)
  qed
qed

text \<open>A run that detects "context\_store" and lists its three namespaces.\<close>

lemmas demo_defs =
  demo_platform_def demo_config_def fresh_run_def connected_run_def invoke_eq say_def
  create_schema_sql_def create_table_sql_def full_table_name_def
  list_tables_def connect_to_catalog_def create_table_try_def get_metadata_path_def
  py_last_def backtick_def newline_def squote_def Let_def

theorem list_namespaces_witness:
  "fst (list_namespaces demo_platform fresh_run) = Inr [''bad'', ''atlan-history'', ''good'']
   \<and> normalizes (NsTuple [''good'', ''x'']) ''good''
   \<and> normalizes (NsStr ''atlan-history'') ''atlan-history''"
proof -
  let ?s1 = "\<lparr>world = (), catalog = Some ''context_store'', catalog_name = Some ''context_store'',
      warehouse_name = Some ''context_store'',
      calls = [LoadCatalog ''atlan-wh'' ''atlan-wh'', LoadCatalog ''context_store'' ''context_store'',
               ListNamespaces, LoadCatalog ''context_store'' ''context_store''],
      logs = [LogDetecting, LogNotAccessible ''atlan-wh'', LogUsingCatalog ''context_store'',
              LogConnected ''context_store'']\<rparr>"
  have c: "connect_to_catalog demo_platform fresh_run = (Inr (), ?s1)"
    by (simp add: demo_defs detect_catalog_def)
  have h: "catalog ?s1 = Some ''context_store''"
    by simp
  have r: "catalog_list_namespaces demo_platform ''context_store'' (world ?s1) =
      (Inr [NsTuple [''bad''], NsStr ''atlan-history'', NsTuple [''good'', ''x'']], ())"
    by (simp add: demo_platform_def)
  from list_namespaces_normalizes [OF c h r]
  obtain names where "fst (list_namespaces demo_platform fresh_run) = Inr names"
    and "list_all2 normalizes [NsTuple [''bad''], NsStr ''atlan-history'', NsTuple [''good'', ''x'']] names"
    by auto
  then show ?thesis
    by (auto simp add: list_all2_Cons1 normalizes_def)
qed

subsection \<open>The record of calls\<close>

lemma calls_added_iff:
  "calls_added ok s s' \<longleftrightarrow> (\<exists>new. calls s' = calls s @ new \<and> list_all ok new)"
proof
  assume "calls_added ok s s'"
  then have "calls s' = calls s @ drop (length (calls s)) (calls s')"
    and "list_all ok (drop (length (calls s)) (calls s'))"
    by (simp_all add: calls_added_def) (metis append_take_drop_id)
  then show "\<exists>new. calls s' = calls s @ new \<and> list_all ok new"
    by blast
next
  assume "\<exists>new. calls s' = calls s @ new \<and> list_all ok new"
  then show "calls_added ok s s'"
    by (auto simp add: calls_added_def)
qed

lemma calls_added_refl: "calls_added ok s s"
  by (simp add: calls_added_def)

lemma calls_added_trans:
  "calls_added ok s s1 \<Longrightarrow> calls_added ok s1 s2 \<Longrightarrow> calls_added ok s s2"
  unfolding calls_added_iff by auto

lemma calls_added_say: "calls_added ok s s1 \<Longrightarrow> calls_added ok s (say entry s1)"
  by (simp add: calls_added_def)

lemma calls_added_say_left: "calls_added ok (say entry s) s1 \<Longrightarrow> calls_added ok s s1"
  by (simp add: calls_added_def)

lemma calls_added_invoke: "ok c \<Longrightarrow> calls_added ok s (snd (invoke c f s))"
  by (simp add: calls_added_iff invoke_eq)

lemma calls_added_invoke_eq: "invoke c f s = (r, s1) \<Longrightarrow> ok c \<Longrightarrow> calls_added ok s s1"
  using calls_added_invoke [of ok c s f] by simp

lemma detect_candidates_calls_added:
  "\<forall>c. call_namespace c = None \<longrightarrow> ok c \<Longrightarrow>
     calls_added ok s (snd (detect_candidates P cs s))"
proof (induction cs arbitrary: s)
  case Nil
  then show ?case by (simp add: calls_added_refl)
next
  case (Cons c cs)
  obtain x s1 where x: "invoke (LoadCatalog c c) (load_catalog P c c) s = (x, s1)"
    by (metis surj_pair)
  have a1: "calls_added ok s s1"
    by (rule calls_added_invoke_eq [OF x]) (simp add: Cons.prems)
  show ?case
  proof (cases x)
    case (Inl e)
    have "calls_added ok s1 (snd (detect_candidates P cs (say (LogNotAccessible c) s1)))"
      using Cons.IH [OF Cons.prems] by (rule calls_added_say_left)
    with a1 x Inl show ?thesis
      by (auto intro: calls_added_trans)
  next
    case (Inr h)
    obtain y s2 where y: "invoke ListNamespaces (catalog_list_namespaces P h) s1 = (y, s2)"
      by (metis surj_pair)
    have "calls_added ok s1 s2"
      by (rule calls_added_invoke_eq [OF y]) (simp add: Cons.prems)
    with a1 have a2: "calls_added ok s s2"
      by (rule calls_added_trans)
    show ?thesis
    proof (cases y)
      case (Inl e)
      have "calls_added ok s2 (snd (detect_candidates P cs (say (LogNotAccessible c) s2)))"
        using Cons.IH [OF Cons.prems] by (rule calls_added_say_left)
      with a2 x y Inr Inl show ?thesis
        by (auto intro: calls_added_trans)
    next
      case r: (Inr namespaces)
      have "calls_added ok s2 (snd (detect_candidates P cs s2))"
        using Cons.IH [OF Cons.prems] .
      with a2 x y Inr r show ?thesis
        by (auto intro: calls_added_trans calls_added_say)
    qed
  qed
qed

lemma connect_to_catalog_calls_added:
  assumes "\<forall>c. call_namespace c = None \<longrightarrow> ok c"
  shows "calls_added ok s (snd (connect_to_catalog P s))"
proof (cases "catalog s")
  case (Some h)
  then show ?thesis by (simp add: connect_to_catalog_def calls_added_refl)
next
  case None
  obtain x s1 where x: "detect_catalog P s = (x, s1)"
    by (metis surj_pair)
  have "calls_added ok (say LogDetecting s) (snd (detect_catalog P s))"
    unfolding detect_catalog_def by (rule detect_candidates_calls_added [OF assms])
  then have a1: "calls_added ok s s1"
    using x by (simp add: calls_added_def)
  show ?thesis
  proof (cases x)
    case (Inl e)
    with None x a1 show ?thesis by (simp add: connect_to_catalog_def)
  next
    case (Inr p)
    obtain name warehouse where p: "p = (name, warehouse)"
      by (metis surj_pair)
    let ?s2 = "s1\<lparr>catalog_name := Some name, warehouse_name := Some warehouse\<rparr>"
    obtain y s3 where y: "invoke (LoadCatalog name warehouse) (load_catalog P name warehouse) ?s2 = (y, s3)"
      by (metis surj_pair)
    have "calls_added ok ?s2 s3"
      by (rule calls_added_invoke_eq [OF y]) (simp add: assms)
    then have "calls_added ok s1 s3"
      by (simp add: calls_added_def)
    with a1 have a3: "calls_added ok s s3"
      by (rule calls_added_trans)
    then have "calls_added ok s (say (LogConnected name) (s3\<lparr>catalog := Some h\<rparr>))" for h
      by (simp add: calls_added_def)
    with None x Inr p y a3 show ?thesis
      by (cases y) (simp_all add: connect_to_catalog_def)
  qed
qed

lemma list_tables_calls_added:
  assumes "\<forall>c. call_namespace c = None \<longrightarrow> ok c"
    and "ok (ListTables n)"
  shows "calls_added ok s (snd (list_tables P n s))"
proof -
  obtain x s1 where x: "connect_to_catalog P s = (x, s1)"
    by (metis surj_pair)
  have a1: "calls_added ok s s1"
    using connect_to_catalog_calls_added [OF assms(1), of s P] x by simp
  show ?thesis
  proof (cases x)
    case (Inl e)
    with x a1 show ?thesis by (simp add: list_tables_def)
  next
    case (Inr u)
    show ?thesis
    proof (cases "catalog s1")
      case None
      with x Inr a1 show ?thesis by (simp add: list_tables_def)
    next
      case (Some h)
      have "calls_added ok s1 (snd (invoke (ListTables n) (catalog_list_tables P h n) s1))"
        using assms(2) by (auto intro: calls_added_invoke)
      with a1 have "calls_added ok s (snd (invoke (ListTables n) (catalog_list_tables P h n) s1))"
        by (rule calls_added_trans)
      with x Inr Some show ?thesis by (simp add: list_tables_def)
    qed
  qed
qed

lemma create_table_try_calls_added:
  assumes "\<forall>ident. ok (LoadTable n ident)"
    and "\<forall>tbl sql. ok (CreateTable n tbl sql)"
  shows "calls_added ok s (snd (create_table_try P cfg n ident s))"
proof -
  obtain x s1 where x:
    "(case catalog s of
        None \<Rightarrow> (Inl (AttributeError ''load_table''), s)
      | Some h \<Rightarrow> invoke (LoadTable n ident) (catalog_load_table P h ident) s) = (x, s1)"
    by (metis surj_pair)
  have a1: "calls_added ok s s1"
  proof (cases "catalog s")
    case None
    with x show ?thesis by (auto simp add: calls_added_refl)
  next
    case (Some h)
    with x have "invoke (LoadTable n ident) (catalog_load_table P h ident) s = (x, s1)"
      by simp
    then show ?thesis
      by (rule calls_added_invoke_eq) (simp add: assms)
  qed
  show ?thesis
  proof (cases x)
    case (Inl e)
    with x a1 show ?thesis by (simp add: create_table_try_def)
  next
    case (Inr t)
    show ?thesis
    proof (cases "get_metadata_path t")
      case (Inl e)
      with x Inr a1 show ?thesis by (simp add: create_table_try_def)
    next
      case p: (Inr path)
      show ?thesis
      proof (cases "py_last ident")
        case (Inl e)
        with x Inr p a1 show ?thesis by (simp add: create_table_try_def)
      next
        case l: (Inr tbl)
        let ?full = "full_table_name (DBX_CATALOG_NAME cfg) n tbl"
        let ?sql = "create_table_sql ?full path"
        obtain y s2 where y:
          "invoke (CreateTable n tbl ?sql) (spark_sql P ?sql) (say (LogCreating ?sql) s1) = (y, s2)"
          by (metis surj_pair)
        have "calls_added ok (say (LogCreating ?sql) s1) s2"
          by (rule calls_added_invoke_eq [OF y]) (simp add: assms)
        then have "calls_added ok s1 s2"
          by (rule calls_added_say_left)
        with a1 have a2: "calls_added ok s s2"
          by (rule calls_added_trans)
        then have "calls_added ok s (say (LogCreated ?full) s2)"
          by (rule calls_added_say)
        with x Inr p l y a2 show ?thesis
          by (cases y) (simp_all add: create_table_try_def Let_def)
      qed
    qed
  qed
qed

lemma create_tables_calls_added:
  assumes "\<forall>ident. ok (LoadTable n ident)"
    and "\<forall>tbl sql. ok (CreateTable n tbl sql)"
  shows "calls_added ok s (snd (create_tables P cfg n idents s))"
proof (induction idents arbitrary: s)
  case Nil
  then show ?case by (simp add: calls_added_refl)
next
  case (Cons ident idents)
  obtain x s1 where x: "create_table_try P cfg n ident s = (x, s1)"
    by (metis surj_pair)
  have a1: "calls_added ok s s1"
    using create_table_try_calls_added [OF assms, of s P cfg ident] x by simp
  show ?case
  proof (cases x)
    case (Inr u)
    with x a1 Cons.IH [of s1] show ?thesis
      by (auto intro: calls_added_trans)
  next
    case (Inl e)
    show ?thesis
    proof (cases "py_last ident")
      case l: (Inl e')
      with x Inl a1 show ?thesis by simp
    next
      case (Inr tbl)
      have "calls_added ok s1 (snd (create_tables P cfg n idents (say (LogTableFailed n tbl e) s1)))"
        using Cons.IH by (rule calls_added_say_left)
      with a1 have "calls_added ok s (snd (create_tables P cfg n idents (say (LogTableFailed n tbl e) s1)))"
        by (rule calls_added_trans)
      with x Inl Inr show ?thesis by simp
    qed
  qed
qed

subsection \<open>The loop over the namespaces\<close>

lemma sync_namespaces_append:
  "sync_namespaces P cfg (xs @ ys) s =
     (case sync_namespaces P cfg xs s of
        (Inl e, s1) \<Rightarrow> (Inl e, s1)
      | (Inr u, s1) \<Rightarrow> sync_namespaces P cfg ys s1)"
  by (induction xs arbitrary: s) (simp_all split: prod.splits sum.splits)

















subsection \<open>The history namespace\<close>

lemma sync_namespaces_calls_added:
  assumes "\<not> HISTORY_NAMESPACE_SYNC cfg"
  shows "calls_added (\<lambda>c. call_namespace c \<noteq> Some ''atlan-history'') s
           (snd (sync_namespaces P cfg namespaces s))"
proof (induction namespaces arbitrary: s)
  case Nil
  then show ?case by (simp add: calls_added_refl)
next
  case (Cons n namespaces)
  let ?ok = "\<lambda>c. call_namespace c \<noteq> Some ''atlan-history''"
  have IH: "calls_added ?ok s0 s1 \<Longrightarrow>
      calls_added ?ok s0 (snd (sync_namespaces P cfg namespaces s1))" for s0 s1
    using Cons.IH [of s1] by (rule calls_added_trans [rotated])
  show ?case
  proof (cases "n = ''atlan-history''")
    case True
    have "calls_added ?ok s (say LogSkipHistory s)"
      by (simp add: calls_added_say calls_added_refl)
    with True assms IH show ?thesis by simp
  next
    case False
    then have okl: "?ok (ListTables n)"
      and oklt: "\<forall>ident. ?ok (LoadTable n ident)"
      and okct: "\<forall>tbl sql. ?ok (CreateTable n tbl sql)"
      by simp_all
    have oknone: "\<forall>c. call_namespace c = None \<longrightarrow> ?ok c"
      by simp
    let ?sql = "create_schema_sql (DBX_CATALOG_NAME cfg) n"
    obtain x s1 where x:
      "invoke (CreateSchema n ?sql) (spark_sql P ?sql) (say (LogProcessing n) s) = (x, s1)"
      by (metis surj_pair)
    have "calls_added ?ok (say (LogProcessing n) s) s1"
      by (rule calls_added_invoke_eq [OF x]) (simp add: False)
    then have a1: "calls_added ?ok s s1"
      by (rule calls_added_say_left)
    show ?thesis
    proof (cases x)
      case (Inl e)
      from a1 have "calls_added ?ok s (say (LogSchemaFailed n e) s1)"
        by (rule calls_added_say)
      with False x Inl IH show ?thesis by simp
    next
      case (Inr u)
      obtain y s2 where y: "list_tables P n s1 = (y, s2)"
        by (metis surj_pair)
      have "calls_added ?ok s1 s2"
        using list_tables_calls_added [OF oknone okl, of s1 P] y by simp
      with a1 have a2: "calls_added ?ok s s2"
        by (rule calls_added_trans)
      show ?thesis
      proof (cases y)
        case l: (Inl e)
        from a2 have "calls_added ?ok s (say (LogListFailed n e) s2)"
          by (rule calls_added_say)
        with False x Inr y l IH show ?thesis by simp
      next
        case t: (Inr tables)
        obtain z s3 where z: "create_tables P cfg n tables s2 = (z, s3)"
          by (metis surj_pair)
        have "calls_added ?ok s2 s3"
          using create_tables_calls_added [OF oklt okct, of s2 P cfg tables] z by simp
        with a2 have a3: "calls_added ?ok s s3"
          by (rule calls_added_trans)
        with False x Inr y t z IH show ?thesis
          by (cases z) simp_all
      qed
    qed
  qed
qed

text \<open>
  C6. With history sync disabled, which is the default when the environment variable is
  not set, no call at all is made for the namespace "atlan-history" (no schema creation,
  no table listing, no table creation), wherever it stands in the list; at that
  namespace the loop only writes a log line and goes on with the namespaces after it,
  which are processed as usual.
\<close>

theorem history_namespace_is_skipped:
  assumes "\<not> HISTORY_NAMESPACE_SYNC cfg"
  shows "(\<exists>new. calls (snd (sync_namespaces P cfg namespaces s)) = calls s @ new
            \<and> (\<forall>c\<in>set new. call_namespace c \<noteq> Some ''atlan-history''))
       \<and> (\<forall>s1. sync_namespaces P cfg before s = (Inr (), s1) \<longrightarrow>
            sync_namespaces P cfg (before @ ''atlan-history'' # after) s =
            sync_namespaces P cfg after (say LogSkipHistory s1))
       \<and> \<not> history_namespace_sync_of_env None"
proof -
  have 1: "\<exists>new. calls (snd (sync_namespaces P cfg namespaces s)) = calls s @ new
            \<and> (\<forall>c\<in>set new. call_namespace c \<noteq> Some ''atlan-history'')"
    using sync_namespaces_calls_added [OF assms, of s P namespaces]
    by (simp add: calls_added_iff list_all_iff)
  have 2: "\<forall>s1. sync_namespaces P cfg before s = (Inr (), s1) \<longrightarrow>
            sync_namespaces P cfg (before @ ''atlan-history'' # after) s =
            sync_namespaces P cfg after (say LogSkipHistory s1)"
    using assms by (simp add: sync_namespaces_append)
  have 3: "\<not> history_namespace_sync_of_env None"
    by (simp add: history_namespace_sync_of_env_def lower_char_def)
  from 1 2 3 show ?thesis by blast
qed

text \<open>The history namespace followed by another one.\<close>

theorem history_namespace_witness:
  "sync_namespaces demo_platform demo_config [''atlan-history'', ''good''] connected_run =
     (Inr (),
      connected_run
        \<lparr>calls :=
           [CreateSchema ''good'' (create_schema_sql ''dbx'' ''good''),
            ListTables ''good'',
            LoadTable ''good'' [''good'', ''t''],
            CreateTable ''good'' ''t''
              (create_table_sql (full_table_name ''dbx'' ''good'' ''t'') ''s3://m'')],
         logs :=
           [LogSkipHistory, LogProcessing ''good'',
            LogCreating (create_table_sql (full_table_name ''dbx'' ''good'' ''t'') ''s3://m''),
            LogCreated (full_table_name ''dbx'' ''good'' ''t'')]\<rparr>)"
proof -
  have h: "\<not> HISTORY_NAMESPACE_SYNC demo_config"
    by (simp add: demo_config_def)
  have b: "sync_namespaces demo_platform demo_config [] connected_run = (Inr (), connected_run)"
    by simp
  from history_namespace_is_skipped [OF h, of demo_platform "[]" connected_run "[]" "[''good'']"] b
  have "sync_namespaces demo_platform demo_config ([] @ ''atlan-history'' # [''good'']) connected_run =
      sync_namespaces demo_platform demo_config [''good''] (say LogSkipHistory connected_run)"
    by blast
  then show ?thesis
    by (simp add: demo_defs)
qed

end
